theory Spec2Isabelle
  imports Main "HOL-Library.Sublist"
begin

section \<open>The environment: paths and the file system\<close>

text \<open>
  The extension (\<^verbatim>\<open>src/extension.ts\<close>) reaches the disk through seven calls of Node's
  \<^verbatim>\<open>path\<close> and \<^verbatim>\<open>fs\<close> modules: \<^verbatim>\<open>path.join\<close>, \<^verbatim>\<open>path.dirname\<close>, \<^verbatim>\<open>fs.existsSync\<close>,
  \<^verbatim>\<open>fs.statSync\<close>, \<^verbatim>\<open>fs.readFileSync\<close>, \<^verbatim>\<open>fs.mkdirSync\<close> (recursive) and
  \<^verbatim>\<open>fs.writeFileSync\<close>. They are library code, so this section is a model of their POSIX
  behaviour, kept separate from the embedding of the extension's own two functions.

  Assumptions of the model:
  \<^item> POSIX separators; the workspace folder's \<^verbatim>\<open>fsPath\<close> is an absolute path.
  \<^item> An absolute, normalised path is the list of its segments below the root; a trailing
    separator is dropped like any other empty segment.
  \<^item> A node is a regular file or a directory; there are no symbolic links.
  \<^item> A file carries a read and a write permission bit, a directory a write permission
    bit (needed to add an entry); search permission on directories is always granted.
    The two bits of a file are independent, as they are under POSIX. A file or directory
    that a call creates may be read and written.
  \<^item> The message of a failed call has Node's form: error code, description, system
    call and path.
  \<^item> Text is a \<^typ>\<open>string\<close>; encoding to and decoding from UTF-8 loses nothing.
  \<^item> A timestamp is a natural number, and stands for its own ISO-8601 rendering.
  \<^item> The time stamp of a directory is not refreshed when an entry is added to it.
  \<^item> Nothing else changes the disk while one of the two functions runs.
\<close>

type_synonym apath = "string list"
type_synonym timestamp = nat

fun split_sep :: "string \<Rightarrow> string \<Rightarrow> string list" where
  "split_sep cur [] = [cur]"
| "split_sep cur (c # cs) =
     (if c = CHR ''/'' then cur # split_sep [] cs else split_sep (cur @ [c]) cs)"

fun normalize_segs :: "apath \<Rightarrow> string list \<Rightarrow> apath" where
  "normalize_segs acc [] = acc"
| "normalize_segs acc (s # ss) =
     (if s = [] \<or> s = ''.'' then normalize_segs acc ss
      else if s = ''..'' then normalize_segs (butlast acc) ss
      else normalize_segs (acc @ [s]) ss)"

definition path_join :: "string \<Rightarrow> string \<Rightarrow> apath" where
  "path_join base filePath = normalize_segs [] (split_sep [] base @ split_sep [] filePath)"

definition path_dirname :: "apath \<Rightarrow> apath" where
  "path_dirname p = butlast p"

definition render :: "apath \<Rightarrow> string" where
  "render p = (if p = [] then ''/'' else concat (map (\<lambda>s. CHR ''/'' # s) p))"

text \<open>
  A regular file \<open>File content mtime readable writable\<close> or a directory
  \<open>Dir mtime writable\<close>. The disk is a table from absolute paths to nodes, with the
  clock that stamps what is written.
\<close>

datatype node =
    File string timestamp bool bool
  | Dir timestamp bool

record filesys =
  nodes :: "apath \<rightharpoonup> node"
  clock :: timestamp

datatype errno = ENOENT | EACCES | EISDIR | ENOTDIR | EEXIST

fun errno_text :: "errno \<Rightarrow> string" where
  "errno_text ENOENT = ''ENOENT: no such file or directory''"
| "errno_text EACCES = ''EACCES: permission denied''"
| "errno_text EISDIR = ''EISDIR: illegal operation on a directory''"
| "errno_text ENOTDIR = ''ENOTDIR: not a directory''"
| "errno_text EEXIST = ''EEXIST: file already exists''"

text \<open>
  What a \<^verbatim>\<open>catch\<close> clause may receive. Every failure of an \<^verbatim>\<open>fs\<close> call is an
  \<^verbatim>\<open>Error\<close> object with a message; \<open>NonError\<close> stands for any other thrown value.
\<close>

datatype thrown = Error string | NonError

definition sys_error :: "errno \<Rightarrow> string \<Rightarrow> apath \<Rightarrow> thrown" where
  "sys_error e syscall p =
     Error (errno_text e @ '', '' @ syscall @ '' '' @ [CHR 0x27] @ render p @ [CHR 0x27])"

text \<open>
  Path resolution walks from the root: every segment but the last must name a
  directory.
\<close>

fun walk :: "(apath \<rightharpoonup> node) \<Rightarrow> apath \<Rightarrow> string list \<Rightarrow> errno + node" where
  "walk m cur [] = (case m cur of None \<Rightarrow> Inl ENOENT | Some n \<Rightarrow> Inr n)"
| "walk m cur (x # xs) =
     (case m cur of
        None \<Rightarrow> Inl ENOENT
      | Some (File c t r w) \<Rightarrow> Inl ENOTDIR
      | Some (Dir t w) \<Rightarrow> walk m (cur @ [x]) xs)"

definition lookup :: "filesys \<Rightarrow> apath \<Rightarrow> errno + node" where
  "lookup fs p = walk (nodes fs) [] p"

definition existsSync :: "filesys \<Rightarrow> apath \<Rightarrow> bool" where
  "existsSync fs p = (case lookup fs p of Inl e \<Rightarrow> False | Inr n \<Rightarrow> True)"

record stats =
  mtime :: timestamp

definition statSync :: "filesys \<Rightarrow> apath \<Rightarrow> thrown + stats" where
  "statSync fs p =
     (case lookup fs p of
        Inl e \<Rightarrow> Inl (sys_error e ''stat'' p)
      | Inr (File c t r w) \<Rightarrow> Inr \<lparr>mtime = t\<rparr>
      | Inr (Dir t w) \<Rightarrow> Inr \<lparr>mtime = t\<rparr>)"

definition readFileSync :: "filesys \<Rightarrow> apath \<Rightarrow> thrown + string" where
  "readFileSync fs p =
     (case lookup fs p of
        Inl e \<Rightarrow> Inl (sys_error e ''open'' p)
      | Inr (File c t r w) \<Rightarrow> if r then Inr c else Inl (sys_error EACCES ''open'' p)
      | Inr (Dir t w) \<Rightarrow> Inl (sys_error EISDIR ''read'' p))"

text \<open>
  \<^verbatim>\<open>fs.mkdirSync(dir, { recursive: true })\<close> visits the prefixes of \<open>dir\<close> from the root
  down, keeps the directories it finds and creates the missing ones. The directories
  made before a failure stay on disk.
\<close>

fun mkdir_chain :: "filesys \<Rightarrow> apath \<Rightarrow> apath list \<Rightarrow> (thrown + unit) \<times> filesys" where
  "mkdir_chain fs target [] = (Inr (), fs)"
| "mkdir_chain fs target (q # qs) =
     (case nodes fs q of
        Some (Dir t w) \<Rightarrow> mkdir_chain fs target qs
      | Some (File c t r w) \<Rightarrow>
          (Inl (sys_error (if q = target then EEXIST else ENOTDIR) ''mkdir'' target), fs)
      | None \<Rightarrow>
          (case nodes fs (butlast q) of
             Some (Dir t w) \<Rightarrow>
               if q \<noteq> [] \<and> w
               then mkdir_chain (fs\<lparr>nodes := (nodes fs)(q \<mapsto> Dir (clock fs) True)\<rparr>) target qs
               else (Inl (sys_error EACCES ''mkdir'' target), fs)
           | Some (File c t r w) \<Rightarrow> (Inl (sys_error ENOTDIR ''mkdir'' target), fs)
           | None \<Rightarrow> (Inl (sys_error ENOENT ''mkdir'' target), fs)))"

definition mkdirSync :: "filesys \<Rightarrow> apath \<Rightarrow> (thrown + unit) \<times> filesys" where
  "mkdirSync fs p = mkdir_chain fs p (prefixes p)"

text \<open>
  \<^verbatim>\<open>fs.writeFileSync(p, content, 'utf8')\<close> opens \<open>p\<close> for writing, creating it when it is
  absent, and replaces what the file held. A failed write leaves the disk as it was.
\<close>

definition writeFileSync :: "filesys \<Rightarrow> apath \<Rightarrow> string \<Rightarrow> (thrown + unit) \<times> filesys" where
  "writeFileSync fs p content =
     (case lookup fs p of
        Inr (Dir t w) \<Rightarrow> (Inl (sys_error EISDIR ''open'' p), fs)
      | Inr (File c t r w) \<Rightarrow>
          if w
          then (Inr (), fs\<lparr>nodes := (nodes fs)(p \<mapsto> File content (clock fs) r w),
                            clock := Suc (clock fs)\<rparr>)
          else (Inl (sys_error EACCES ''open'' p), fs)
      | Inl ENOENT \<Rightarrow>
          (case lookup fs (butlast p) of
             Inr (Dir t w) \<Rightarrow>
               if p \<noteq> [] \<and> w
               then (Inr (), fs\<lparr>nodes := (nodes fs)(p \<mapsto> File content (clock fs) True True),
                                 clock := Suc (clock fs)\<rparr>)
               else (Inl (sys_error EACCES ''open'' p), fs)
           | Inr (File c t r w) \<Rightarrow> (Inl (sys_error ENOTDIR ''open'' p), fs)
           | Inl e \<Rightarrow> (Inl (sys_error e ''open'' p), fs))
      | Inl e \<Rightarrow> (Inl (sys_error e ''open'' p), fs))"

section \<open>The data of the extension\<close>

text \<open>
  The entries of \<^verbatim>\<open>fileStatuses\<close> in \<^verbatim>\<open>_loadContent\<close>:
  \<^verbatim>\<open>{ file: string; exists: boolean; lastModified?: string }\<close>.
\<close>

record file_status =
  "file" :: string
  exists :: bool
  lastModified :: "timestamp option"

text \<open>
  The entries of \<^verbatim>\<open>results\<close> in \<^verbatim>\<open>_saveToAllFiles\<close>:
  \<^verbatim>\<open>{ file: string; success: boolean; error?: string }\<close>. Its first field is
  \<open>result_file\<close> here, the name \<open>file\<close> being taken by the record above.
\<close>

record save_result =
  result_file :: string
  success :: bool
  error :: "string option"

text \<open>
  What the two functions do to the editor: the messages posted to the webview and the
  notifications shown, in the order of the calls.
\<close>

datatype message =
    LoadContent string "file_status list"
  | SaveResults "save_result list"

datatype effect =
    ShowErrorMessage string
  | ShowInformationMessage string
  | PostMessage message

section \<open>Saving: \<^verbatim>\<open>_saveToAllFiles\<close>\<close>

text \<open>
  The \<^verbatim>\<open>catch\<close> clause of the save loop:
  \<^verbatim>\<open>error instanceof Error ? error.message : 'Unknown error'\<close>.
\<close>

definition save_failure :: "string \<Rightarrow> thrown \<Rightarrow> save_result" where
  "save_failure filePath e =
     \<lparr>result_file = filePath, success = False,
      error = Some (case e of Error msg \<Rightarrow> msg | NonError \<Rightarrow> ''Unknown error'')\<rparr>"

text \<open>
  One turn of the loop, the \<^verbatim>\<open>try\<close> block with its \<^verbatim>\<open>catch\<close>: the directory is made
  when it does not exist, then the file is written; the first call that throws ends
  the turn with a failure entry.
\<close>

definition save_one :: "filesys \<Rightarrow> string \<Rightarrow> string \<Rightarrow> string \<Rightarrow> save_result \<times> filesys" where
  "save_one fs fsPath content filePath =
     (let fullPath = path_join fsPath filePath;
          dir = path_dirname fullPath;
          (made, fs1) = (if \<not> existsSync fs dir then mkdirSync fs dir else (Inr (), fs))
      in case made of
           Inl e \<Rightarrow> (save_failure filePath e, fs1)
         | Inr u \<Rightarrow>
             (case writeFileSync fs1 fullPath content of
                (Inl e, fs2) \<Rightarrow> (save_failure filePath e, fs2)
              | (Inr u, fs2) \<Rightarrow>
                  (\<lparr>result_file = filePath, success = True, error = None\<rparr>, fs2)))"

text \<open>The loop \<^verbatim>\<open>for (const filePath of syncedFiles)\<close>, pushing onto \<^verbatim>\<open>results\<close>.\<close>

fun save_loop ::
  "filesys \<Rightarrow> string \<Rightarrow> string \<Rightarrow> string list \<Rightarrow> save_result list \<Rightarrow> save_result list \<times> filesys"
where
  "save_loop fs fsPath content [] results = (results, fs)"
| "save_loop fs fsPath content (filePath # rest) results =
     (case save_one fs fsPath content filePath of
        (r, fs') \<Rightarrow> save_loop fs' fsPath content rest (results @ [r]))"

text \<open>Template literals print a number in decimal and a missing field as \<^verbatim>\<open>undefined\<close>.\<close>

fun show_nat :: "nat \<Rightarrow> string" where
  "show_nat n =
     (if n < 10 then [''0123456789'' ! n]
      else show_nat (n div 10) @ [''0123456789'' ! (n mod 10)])"

declare show_nat.simps [simp del]

fun join_lines :: "string list \<Rightarrow> string" where
  "join_lines [] = []"
| "join_lines [l] = l"
| "join_lines (l # ls) = l @ [CHR 0x0A] @ join_lines ls"

definition failed_line :: "save_result \<Rightarrow> string" where
  "failed_line f =
     result_file f @ '': '' @ (case error f of None \<Rightarrow> ''undefined'' | Some msg \<Rightarrow> msg)"

text \<open>
  The notification after the loop: an information message when nothing failed, an
  error message listing the failed files otherwise.
\<close>

definition save_feedback :: "save_result list \<Rightarrow> effect" where
  "save_feedback results =
     (let successful = length (filter success results);
          failed = filter (\<lambda>r. \<not> success r) results
      in if length failed = 0
         then ShowInformationMessage
                (''Successfully saved to '' @ show_nat successful @ '' file(s)'')
         else ShowErrorMessage
                (''Saved to '' @ show_nat successful @ '' file(s), failed to save ''
                 @ show_nat (length failed) @ '' file(s):'' @ [CHR 0x0A]
                 @ join_lines (map failed_line failed)))"

text \<open>
  \<^verbatim>\<open>_saveToAllFiles(content)\<close>. \<open>syncedFiles\<close> is the configured list \<^verbatim>\<open>ruleFiles\<close>;
  \<open>workspaceFolder\<close> is \<^verbatim>\<open>workspaceFolders?.[0]\<close>, given by its \<^verbatim>\<open>uri.fsPath\<close>, and
  \<open>None\<close> when no folder is open.
\<close>

definition saveToAllFiles ::
  "filesys \<Rightarrow> string list \<Rightarrow> string option \<Rightarrow> string \<Rightarrow> effect list \<times> filesys"
where
  "saveToAllFiles fs syncedFiles workspaceFolder content =
     (case workspaceFolder of
        None \<Rightarrow> ([ShowErrorMessage ''No workspace folder found''], fs)
      | Some fsPath \<Rightarrow>
          (case save_loop fs fsPath content syncedFiles [] of
             (results, fs') \<Rightarrow>
               ([save_feedback results, PostMessage (SaveResults results)], fs')))"

section \<open>Loading: \<^verbatim>\<open>_loadContent\<close>\<close>

text \<open>
  The first loop. A turn whose file exists, can be examined and can be read takes the
  text, pushes an entry and breaks; in every other turn an entry with \<open>exists = False\<close>
  is pushed, by the \<^verbatim>\<open>else\<close> branch or by the \<^verbatim>\<open>catch\<close> clause, and the loop goes on.
  When \<^verbatim>\<open>readFileSync\<close> throws, the assignment to \<^verbatim>\<open>content\<close> has not happened.
\<close>

fun load_loop ::
  "filesys \<Rightarrow> string \<Rightarrow> string list \<Rightarrow> string \<Rightarrow> file_status list \<Rightarrow> string \<times> file_status list"
where
  "load_loop fs fsPath [] content fileStatuses = (content, fileStatuses)"
| "load_loop fs fsPath (filePath # rest) content fileStatuses =
     (let fullPath = path_join fsPath filePath in
      if existsSync fs fullPath then
        (case statSync fs fullPath of
           Inl e \<Rightarrow>
             load_loop fs fsPath rest content
               (fileStatuses @ [\<lparr>file = filePath, exists = False, lastModified = None\<rparr>])
         | Inr st \<Rightarrow>
             (case readFileSync fs fullPath of
                Inl e \<Rightarrow>
                  load_loop fs fsPath rest content
                    (fileStatuses @ [\<lparr>file = filePath, exists = False, lastModified = None\<rparr>])
              | Inr text \<Rightarrow>
                  (text,
                   fileStatuses
                   @ [\<lparr>file = filePath, exists = True, lastModified = Some (mtime st)\<rparr>])))
      else
        load_loop fs fsPath rest content
          (fileStatuses @ [\<lparr>file = filePath, exists = False, lastModified = None\<rparr>]))"

text \<open>One turn of the second loop: the file is examined, never read.\<close>

definition status_of :: "filesys \<Rightarrow> string \<Rightarrow> string \<Rightarrow> file_status" where
  "status_of fs fsPath filePath =
     (let fullPath = path_join fsPath filePath in
      if existsSync fs fullPath then
        (case statSync fs fullPath of
           Inl e \<Rightarrow> \<lparr>file = filePath, exists = False, lastModified = None\<rparr>
         | Inr st \<Rightarrow> \<lparr>file = filePath, exists = True, lastModified = Some (mtime st)\<rparr>)
      else \<lparr>file = filePath, exists = False, lastModified = None\<rparr>)"

text \<open>The second loop, \<^verbatim>\<open>for (let i = 1; i < syncedFiles.length; i++)\<close>.\<close>

function status_loop ::
  "filesys \<Rightarrow> string \<Rightarrow> string list \<Rightarrow> nat \<Rightarrow> file_status list \<Rightarrow> file_status list"
where
  "status_loop fs fsPath syncedFiles i fileStatuses =
     (if i < length syncedFiles
      then status_loop fs fsPath syncedFiles (Suc i)
             (fileStatuses @ [status_of fs fsPath (syncedFiles ! i)])
      else fileStatuses)"
  by pat_completeness auto
termination
  by (relation "measure (\<lambda>(fs, fsPath, syncedFiles, i, fileStatuses). length syncedFiles - i)")
     auto

declare status_loop.simps [simp del]

text \<open>
  The pair \<open>(content, fileStatuses)\<close> that \<^verbatim>\<open>_loadContent\<close> posts: both loops, or the
  empty pair when no folder is open.
\<close>

definition resolve :: "filesys \<Rightarrow> string list \<Rightarrow> string option \<Rightarrow> string \<times> file_status list" where
  "resolve fs syncedFiles workspaceFolder =
     (case workspaceFolder of
        None \<Rightarrow> ('''', [])
      | Some fsPath \<Rightarrow>
          (case load_loop fs fsPath syncedFiles '''' [] of
             (content, fileStatuses) \<Rightarrow>
               (content, status_loop fs fsPath syncedFiles 1 fileStatuses)))"

text \<open>\<^verbatim>\<open>_loadContent()\<close>: the disk is only read, and one message is posted.\<close>

definition loadContent :: "filesys \<Rightarrow> string list \<Rightarrow> string option \<Rightarrow> effect list" where
  "loadContent fs syncedFiles workspaceFolder =
     (case resolve fs syncedFiles workspaceFolder of
        (content, fileStatuses) \<Rightarrow> [PostMessage (LoadContent content fileStatuses)])"

section \<open>Two notions used in the statements\<close>

text \<open>
  \<open>holds_text fs p content\<close>: the path resolves to a regular file whose whole content is
  \<open>content\<close>. \<open>is_directory fs p\<close>: the path resolves to a directory.
\<close>

definition holds_text :: "filesys \<Rightarrow> apath \<Rightarrow> string \<Rightarrow> bool" where
  "holds_text fs p content =
     (case lookup fs p of Inr (File c t r w) \<Rightarrow> c = content | _ \<Rightarrow> False)"

definition is_directory :: "filesys \<Rightarrow> apath \<Rightarrow> bool" where
  "is_directory fs p = (case lookup fs p of Inr (Dir t w) \<Rightarrow> True | _ \<Rightarrow> False)"

section \<open>Disks used as concrete inputs\<close>

text \<open>The workspace folder \<^verbatim>\<open>/w\<close>, writable and empty.\<close>

definition disk_bare :: filesys where
  "disk_bare = \<lparr>nodes = [[] \<mapsto> Dir 0 True, [''w''] \<mapsto> Dir 0 True], clock = 1\<rparr>"


text \<open>\<^verbatim>\<open>/w\<close> with a directory \<^verbatim>\<open>locked\<close> to which no entry may be added.\<close>

definition disk_locked :: filesys where
  "disk_locked =
     \<lparr>nodes = [[] \<mapsto> Dir 0 True, [''w''] \<mapsto> Dir 0 True,
               [''w'', ''locked''] \<mapsto> Dir 1 False],
      clock = 2\<rparr>"


section \<open>Path resolution\<close>

text \<open>
  A path resolves to a node exactly when each of its proper prefixes is a directory and
  the path itself is in the table.
\<close>

lemma all_strict_prefix_Cons:
  "(\<forall>ys. strict_prefix ys (x # xs) \<longrightarrow> P ys)
   \<longleftrightarrow> P [] \<and> (\<forall>zs. strict_prefix zs xs \<longrightarrow> P (x # zs))"
proof
  assume a: "\<forall>ys. strict_prefix ys (x # xs) \<longrightarrow> P ys"
  then show "P [] \<and> (\<forall>zs. strict_prefix zs xs \<longrightarrow> P (x # zs))"
    by simp
next
  assume b: "P [] \<and> (\<forall>zs. strict_prefix zs xs \<longrightarrow> P (x # zs))"
  show "\<forall>ys. strict_prefix ys (x # xs) \<longrightarrow> P ys"
  proof (intro allI impI)
    fix ys assume "strict_prefix ys (x # xs)"
    with b show "P ys" by (cases ys) auto
  qed
qed

lemma walk_Inr_iff:
  "walk m cur xs = Inr n \<longleftrightarrow>
     (\<forall>ys. strict_prefix ys xs \<longrightarrow> (\<exists>t w. m (cur @ ys) = Some (Dir t w)))
     \<and> m (cur @ xs) = Some n"
proof (induction xs arbitrary: cur)
  case Nil
  show ?case by (simp split: option.splits)
next
  case (Cons x xs)
  show ?case
  proof (cases "m cur")
    case None
    have "strict_prefix [] (x # xs)" by simp
    with None show ?thesis by (metis append_Nil2 option.distinct(1) walk.simps(2) option.simps(4) sum.distinct(1))
  next
    case (Some nd)
    show ?thesis
    proof (cases nd)
      case (File c t r w)
      have "strict_prefix [] (x # xs)" by simp
      with Some File show ?thesis
        by (metis append_Nil2 node.distinct(1) option.inject walk.simps(2) option.simps(5) node.simps(5) sum.distinct(1))
    next
      case (Dir t w)
      have "(\<forall>ys. strict_prefix ys (x # xs) \<longrightarrow> (\<exists>t w. m (cur @ ys) = Some (Dir t w)))
            \<longleftrightarrow> (\<forall>zs. strict_prefix zs xs \<longrightarrow> (\<exists>t w. m ((cur @ [x]) @ zs) = Some (Dir t w)))"
        using Some Dir by (simp add: all_strict_prefix_Cons)
      with Some Dir Cons.IH [of "cur @ [x]"] show ?thesis by simp
    qed
  qed
qed

lemma lookup_Inr_iff:
  "lookup fs p = Inr n \<longleftrightarrow>
     (\<forall>ys. strict_prefix ys p \<longrightarrow> (\<exists>t w. nodes fs ys = Some (Dir t w))) \<and> nodes fs p = Some n"
  by (simp add: lookup_def walk_Inr_iff)

lemma lookup_ancestor:
  assumes "lookup fs p = Inr n" and "strict_prefix q p"
  shows "\<exists>t w. lookup fs q = Inr (Dir t w)"
proof -
  from assms obtain t w where "nodes fs q = Some (Dir t w)"
    by (auto simp: lookup_Inr_iff)
  moreover have "\<forall>ys. strict_prefix ys q \<longrightarrow> (\<exists>t w. nodes fs ys = Some (Dir t w))"
    using assms by (meson lookup_Inr_iff prefix_order.less_trans)
  ultimately show ?thesis by (auto simp: lookup_Inr_iff)
qed

lemma lookup_mono:
  assumes "nodes fs \<subseteq>\<^sub>m nodes fs'" and "lookup fs q = Inr n"
  shows "lookup fs' q = Inr n"
proof -
  have "\<And>k v. nodes fs k = Some v \<Longrightarrow> nodes fs' k = Some v"
    using assms(1) by (metis domI map_le_def)
  with assms(2) show ?thesis
    by (auto simp: lookup_Inr_iff)
qed

lemma strict_prefix_butlast:
  "p \<noteq> [] \<Longrightarrow> strict_prefix ys p \<longleftrightarrow> prefix ys (butlast p)"
proof -
  assume "p \<noteq> []"
  then obtain xs x where p: "p = xs @ [x]"
    by (metis append_butlast_last_id)
  have "strict_prefix ys (xs @ [x]) \<longleftrightarrow> prefix ys xs"
    by (auto simp: strict_prefix_def prefix_snoc dest: prefix_length_le)
  with p show ?thesis by simp
qed

section \<open>What the file system calls keep\<close>

text \<open>
  Making directories only adds entries. A successful write changes the entry at its own
  path and nothing else, and that path is not a directory and lies below directories
  only; a failed write changes nothing.
\<close>

lemma mkdir_chain_mono:
  "mkdir_chain fs tgt qs = (r, fs') \<Longrightarrow> nodes fs \<subseteq>\<^sub>m nodes fs'"
proof (induction qs arbitrary: fs)
  case Nil
  then show ?case by simp
next
  case (Cons q qs)
  show ?case
  proof (cases "nodes fs q")
    case None
    let ?fs1 = "fs\<lparr>nodes := (nodes fs)(q \<mapsto> Dir (clock fs) True)\<rparr>"
    have le: "nodes fs \<subseteq>\<^sub>m nodes ?fs1"
      using None by (auto simp: map_le_def)
    show ?thesis
    proof (cases "\<exists>t. nodes fs (butlast q) = Some (Dir t True) \<and> q \<noteq> []")
      case True
      with None Cons.prems have "mkdir_chain ?fs1 tgt qs = (r, fs')"
        by auto
      from Cons.IH [OF this] le show ?thesis
        by (rule map_le_trans [rotated])
    next
      case False
      with None Cons.prems have "fs' = fs"
        by (auto split: option.splits node.splits if_splits)
      then show ?thesis by simp
    qed
  next
    case (Some nd)
    with Cons show ?thesis
      by (cases nd) auto
  qed
qed

lemma mkdirSync_keeps:
  "mkdirSync fs p = (r, fs') \<Longrightarrow> lookup fs q = Inr n \<Longrightarrow> lookup fs' q = Inr n"
  unfolding mkdirSync_def by (meson lookup_mono mkdir_chain_mono)

lemma writeFileSync_failure:
  "writeFileSync fs p c = (Inl e, fs') \<Longrightarrow> fs' = fs"
  by (auto simp: writeFileSync_def split: sum.splits errno.splits node.splits if_splits)

lemma writeFileSync_success:
  assumes "writeFileSync fs p c = (Inr u, fs')"
  shows "\<exists>t r w. fs' = fs\<lparr>nodes := (nodes fs)(p \<mapsto> File c t r w), clock := Suc (clock fs)\<rparr>"
    and "\<forall>t w. lookup fs p \<noteq> Inr (Dir t w)"
    and "\<forall>ys. strict_prefix ys p \<longrightarrow> (\<exists>t w. nodes fs ys = Some (Dir t w))"
proof -
  show "\<exists>t r w. fs' = fs\<lparr>nodes := (nodes fs)(p \<mapsto> File c t r w), clock := Suc (clock fs)\<rparr>"
    using assms
    by (auto simp: writeFileSync_def split: sum.splits errno.splits node.splits if_splits)
  show "\<forall>t w. lookup fs p \<noteq> Inr (Dir t w)"
    using assms
    by (auto simp: writeFileSync_def split: sum.splits errno.splits node.splits if_splits)
  show "\<forall>ys. strict_prefix ys p \<longrightarrow> (\<exists>t w. nodes fs ys = Some (Dir t w))"
  proof (cases "lookup fs p")
    case (Inr n)
    then show ?thesis by (simp add: lookup_Inr_iff)
  next
    case (Inl e)
    with assms obtain t w where d: "lookup fs (butlast p) = Inr (Dir t w)" and ne: "p \<noteq> []"
      by (auto simp: writeFileSync_def split: sum.splits errno.splits node.splits if_splits)
    show ?thesis
    proof (intro allI impI)
      fix ys assume "strict_prefix ys p"
      with ne have "prefix ys (butlast p)" by (simp add: strict_prefix_butlast)
      then have "ys = butlast p \<or> strict_prefix ys (butlast p)"
        by (auto simp: strict_prefix_def)
      with d show "\<exists>t w. nodes fs ys = Some (Dir t w)"
        by (auto simp: lookup_Inr_iff)
    qed
  qed
qed

lemma writeFileSync_written:
  assumes "writeFileSync fs p c = (Inr u, fs')"
  shows "\<exists>t r w. lookup fs' p = Inr (File c t r w)"
proof -
  from writeFileSync_success [OF assms] obtain t r w
    where fs': "fs' = fs\<lparr>nodes := (nodes fs)(p \<mapsto> File c t r w), clock := Suc (clock fs)\<rparr>"
      and anc: "\<forall>ys. strict_prefix ys p \<longrightarrow> (\<exists>t w. nodes fs ys = Some (Dir t w))"
    by blast
  have "lookup fs' p = Inr (File c t r w)"
    unfolding lookup_Inr_iff fs' using anc by auto
  then show ?thesis by blast
qed

lemma writeFileSync_keeps:
  assumes "writeFileSync fs p c = (r, fs')" and "lookup fs q = Inr n" and "q \<noteq> p"
  shows "lookup fs' q = Inr n"
proof (cases r)
  case (Inl e)
  with assms show ?thesis by (auto dest: writeFileSync_failure)
next
  case (Inr u)
  with assms(1) have w: "writeFileSync fs p c = (Inr u, fs')" by simp
  from writeFileSync_success [OF w] obtain t rd wr
    where fs': "fs' = fs\<lparr>nodes := (nodes fs)(p \<mapsto> File c t rd wr), clock := Suc (clock fs)\<rparr>"
      and nd: "\<forall>t w. lookup fs p \<noteq> Inr (Dir t w)"
    by blast
  have "\<not> strict_prefix p q"
    using lookup_ancestor [OF assms(2)] nd by blast
  then have "\<forall>ys. strict_prefix ys q \<longrightarrow> ys \<noteq> p" by blast
  with assms(2,3) show ?thesis
    unfolding lookup_Inr_iff fs' by auto
qed

lemma holds_text_iff:
  "holds_text fs p c \<longleftrightarrow> (\<exists>t r w. lookup fs p = Inr (File c t r w))"
  by (auto simp: holds_text_def split: sum.splits node.splits)

lemma writeFileSync_keeps_text:
  assumes "writeFileSync fs p c = (r, fs')" and "holds_text fs q c"
  shows "holds_text fs' q c"
proof (cases "q = p")
  case False
  with assms show ?thesis
    unfolding holds_text_iff by (metis writeFileSync_keeps)
next
  case True
  show ?thesis
  proof (cases r)
    case (Inl e)
    with assms show ?thesis by (auto dest: writeFileSync_failure)
  next
    case (Inr u)
    with assms(1) True show ?thesis
      unfolding holds_text_iff by (metis writeFileSync_written)
  qed
qed

lemma mkdirSync_keeps_text:
  "mkdirSync fs p = (r, fs') \<Longrightarrow> holds_text fs q c \<Longrightarrow> holds_text fs' q c"
  unfolding holds_text_iff by (metis mkdirSync_keeps)

lemma readFileSync_Inr:
  assumes "readFileSync fs p = Inr text"
  shows "existsSync fs p" and "\<exists>t. statSync fs p = Inr \<lparr>mtime = t\<rparr>"
  using assms
  by (auto simp: readFileSync_def existsSync_def statSync_def
           split: sum.splits node.splits if_splits)

lemma existsSync_statSync:
  "existsSync fs p \<Longrightarrow> \<exists>t. statSync fs p = Inr \<lparr>mtime = t\<rparr>"
  by (auto simp: existsSync_def statSync_def split: sum.splits node.splits)

section \<open>The save loop\<close>

text \<open>
  A file that holds the text being saved still holds it after any further turn of the
  loop, and a turn that reports success leaves its own file holding the text.
\<close>

lemma save_one_keeps_text:
  assumes "holds_text fs q c"
  shows "holds_text (snd (save_one fs b c p)) q c"
proof -
  obtain made fs1 where m:
    "(if \<not> existsSync fs (path_dirname (path_join b p))
      then mkdirSync fs (path_dirname (path_join b p)) else (Inr (), fs)) = (made, fs1)"
    by (cases "if \<not> existsSync fs (path_dirname (path_join b p))
      then mkdirSync fs (path_dirname (path_join b p)) else (Inr (), fs)") auto
  have h1: "holds_text fs1 q c"
    using m assms by (auto split: if_splits dest: mkdirSync_keeps_text)
  obtain wr fs2 where w: "writeFileSync fs1 (path_join b p) c = (wr, fs2)"
    by (cases "writeFileSync fs1 (path_join b p) c") auto
  have h2: "holds_text fs2 q c"
    using writeFileSync_keeps_text [OF w h1] .
  show ?thesis
    using m w h1 h2 by (auto simp: save_one_def Let_def split: sum.splits)
qed

lemma save_one_success:
  assumes "success (fst (save_one fs b c p))"
  shows "holds_text (snd (save_one fs b c p)) (path_join b p) c"
proof -
  obtain made fs1 where m:
    "(if \<not> existsSync fs (path_dirname (path_join b p))
      then mkdirSync fs (path_dirname (path_join b p)) else (Inr (), fs)) = (made, fs1)"
    by (cases "if \<not> existsSync fs (path_dirname (path_join b p))
      then mkdirSync fs (path_dirname (path_join b p)) else (Inr (), fs)") auto
  obtain wr fs2 where w: "writeFileSync fs1 (path_join b p) c = (wr, fs2)"
    by (cases "writeFileSync fs1 (path_join b p) c") auto
  from assms m w obtain u where "wr = Inr u" and "snd (save_one fs b c p) = fs2"
    by (auto simp: save_one_def Let_def save_failure_def split: sum.splits)
  with w show ?thesis
    by (metis holds_text_iff writeFileSync_written)
qed

lemma save_one_outcome:
  "fst (save_one fs b c p) = \<lparr>result_file = p, success = True, error = None\<rparr>
   \<or> (\<exists>msg. fst (save_one fs b c p) = \<lparr>result_file = p, success = False, error = Some msg\<rparr>)"
  by (auto simp: save_one_def Let_def save_failure_def split: sum.splits prod.splits)

lemma save_loop_acc:
  "save_loop fs b c ps acc =
     (acc @ fst (save_loop fs b c ps []), snd (save_loop fs b c ps []))"
proof (induction ps arbitrary: fs acc)
  case Nil
  show ?case by simp
next
  case (Cons p ps)
  obtain r fs1 where s: "save_one fs b c p = (r, fs1)"
    by (cases "save_one fs b c p") auto
  show ?case
    using Cons.IH [of fs1 "acc @ [r]"] Cons.IH [of fs1 "[r]"] s by simp
qed

lemma save_loop_Cons:
  "save_loop fs b c (p # ps) [] =
     (fst (save_one fs b c p) # fst (save_loop (snd (save_one fs b c p)) b c ps []),
      snd (save_loop (snd (save_one fs b c p)) b c ps []))"
proof -
  obtain r fs1 where s: "save_one fs b c p = (r, fs1)"
    by (cases "save_one fs b c p") auto
  show ?thesis
    using s save_loop_acc [of fs1 b c ps "[r]"] by simp
qed

lemma save_loop_append:
  "save_loop fs b c (xs @ ys) [] =
     (fst (save_loop fs b c xs []) @ fst (save_loop (snd (save_loop fs b c xs [])) b c ys []),
      snd (save_loop (snd (save_loop fs b c xs [])) b c ys []))"
proof (induction xs arbitrary: fs)
  case Nil
  show ?case by simp
next
  case (Cons x xs)
  show ?case
    using Cons.IH [of "snd (save_one fs b c x)"]
    by (simp only: append_Cons save_loop_Cons fst_conv snd_conv)
qed

lemma save_loop_length:
  "length (fst (save_loop fs b c ps [])) = length ps"
proof (induction ps arbitrary: fs)
  case Nil
  show ?case by simp
next
  case (Cons p ps)
  then show ?case by (simp only: save_loop_Cons fst_conv list.size)
qed

lemma save_loop_nth:
  assumes "i < length ps"
  shows "fst (save_loop fs b c ps []) ! i =
           fst (save_one (snd (save_loop fs b c (take i ps) [])) b c (ps ! i))"
proof -
  have ps: "ps = take i ps @ (ps ! i # drop (Suc i) ps)"
    using assms by (simp add: id_take_nth_drop)
  have len: "length (fst (save_loop fs b c (take i ps) [])) = i"
    using assms by (simp add: save_loop_length)
  have "fst (save_loop fs b c (take i ps @ (ps ! i # drop (Suc i) ps)) []) ! i =
          fst (save_one (snd (save_loop fs b c (take i ps) [])) b c (ps ! i))"
    by (simp only: save_loop_append save_loop_Cons fst_conv)
       (metis len nth_append_length)
  with ps show ?thesis by simp
qed

lemma save_loop_keeps_text:
  "holds_text fs q c \<Longrightarrow> holds_text (snd (save_loop fs b c ps [])) q c"
proof (induction ps arbitrary: fs)
  case Nil
  then show ?case by simp
next
  case (Cons p ps)
  from Cons.IH [OF save_one_keeps_text [OF Cons.prems]] show ?case
    by (simp only: save_loop_Cons snd_conv)
qed

lemma saveToAllFiles_Some:
  "saveToAllFiles fs ps (Some b) c =
     ([save_feedback (fst (save_loop fs b c ps [])),
       PostMessage (SaveResults (fst (save_loop fs b c ps [])))],
      snd (save_loop fs b c ps []))"
  by (simp add: saveToAllFiles_def split: prod.splits)

lemma save_loop_files:
  "map result_file (fst (save_loop fs b c ps [])) = ps"
proof (induction ps arbitrary: fs)
  case Nil
  show ?case by simp
next
  case (Cons p ps)
  have "result_file (fst (save_one fs b c p)) = p"
    using save_one_outcome [of fs b c p] by auto
  with Cons show ?case
    by (simp only: save_loop_Cons fst_conv list.map)
qed

lemma save_loop_success_holds:
  assumes "i < length ps" and "success (fst (save_loop fs b c ps []) ! i)"
  shows "holds_text (snd (save_loop fs b c ps [])) (path_join b (ps ! i)) c"
proof -
  let ?before = "snd (save_loop fs b c (take i ps) [])"
  let ?after = "snd (save_one ?before b c (ps ! i))"
  have ps: "ps = take i ps @ (ps ! i # drop (Suc i) ps)"
    using assms(1) by (simp add: id_take_nth_drop)
  have "success (fst (save_one ?before b c (ps ! i)))"
    using assms by (simp add: save_loop_nth)
  then have "holds_text ?after (path_join b (ps ! i)) c"
    by (rule save_one_success)
  then have "holds_text (snd (save_loop ?after b c (drop (Suc i) ps) [])) (path_join b (ps ! i)) c"
    by (rule save_loop_keeps_text)
  moreover have "snd (save_loop fs b c (take i ps @ (ps ! i # drop (Suc i) ps)) []) =
                 snd (save_loop ?after b c (drop (Suc i) ps) [])"
    by (simp only: save_loop_append save_loop_Cons snd_conv)
  ultimately show ?thesis
    using ps by simp
qed

lemma show_nat_0: "show_nat 0 = ''0''"
  by (simp add: show_nat.simps)

section \<open>The two loops of \<^verbatim>\<open>_loadContent\<close>\<close>

lemma status_loop_eq:
  "status_loop fs fsPath fl i sts = sts @ map (status_of fs fsPath) (drop i fl)"
proof (induction fs fsPath fl i sts rule: status_loop.induct)
  case (1 fs fsPath fl i sts)
  show ?case
  proof (cases "i < length fl")
    case True
    then have "drop i fl = fl ! i # drop (Suc i) fl"
      by (simp add: Cons_nth_drop_Suc)
    with True 1 show ?thesis
      by (subst status_loop.simps) simp
  next
    case False
    then show ?thesis
      by (subst status_loop.simps) simp
  qed
qed

lemma load_loop_absent:
  "\<forall>p\<in>set ps. \<not> existsSync fs (path_join b p) \<Longrightarrow>
   load_loop fs b ps c sts =
     (c, sts @ map (\<lambda>p. \<lparr>file = p, exists = False, lastModified = None\<rparr>) ps)"
  by (induction ps arbitrary: sts) simp_all

lemma status_of_absent:
  "\<not> existsSync fs (path_join b p) \<Longrightarrow>
   status_of fs b p = \<lparr>file = p, exists = False, lastModified = None\<rparr>"
  by (simp add: status_of_def)

lemma load_loop_skip:
  assumes "isl (readFileSync fs (path_join b q))"
  shows "load_loop fs b (q # rest) c sts =
           load_loop fs b rest c (sts @ [\<lparr>file = q, exists = False, lastModified = None\<rparr>])"
proof -
  from assms obtain e where "readFileSync fs (path_join b q) = Inl e"
    by (cases "readFileSync fs (path_join b q)") auto
  then show ?thesis
    by (simp add: Let_def split: sum.splits)
qed

lemma load_loop_win:
  assumes "readFileSync fs (path_join b q) = Inr text"
  shows "\<exists>t. load_loop fs b (q # rest) c sts =
           (text, sts @ [\<lparr>file = q, exists = True, lastModified = Some t\<rparr>])"
proof -
  from readFileSync_Inr [OF assms] obtain t
    where "existsSync fs (path_join b q)" and "statSync fs (path_join b q) = Inr \<lparr>mtime = t\<rparr>"
    by blast
  with assms show ?thesis
    by (simp add: Let_def)
qed


lemma load_loop_extends:
  "\<exists>ext. snd (load_loop fs b ps c sts) = sts @ ext"
proof (induction ps arbitrary: sts)
  case Nil
  show ?case by simp
next
  case (Cons p ps)
  show ?case
  proof (cases "readFileSync fs (path_join b p)")
    case (Inl e)
    then have "isl (readFileSync fs (path_join b p))" by simp
    from load_loop_skip [OF this]
      Cons [of "sts @ [\<lparr>file = p, exists = False, lastModified = None\<rparr>]"]
    show ?thesis by (auto simp del: load_loop.simps)
  next
    case (Inr body)
    from load_loop_win [OF Inr] show ?thesis
      by (metis snd_conv)
  qed
qed




lemma snd_resolve:
  "snd (resolve fs ps (Some b)) =
     snd (load_loop fs b ps '''' []) @ map (status_of fs b) (drop 1 ps)"
  by (simp add: resolve_def status_loop_eq split: prod.splits)

text \<open>
  How long the status list is. When the first path is the winner, the list names each
  path once, in order. When the first path cannot be read and there is a second path,
  the list is longer than the list of paths.
\<close>

lemma file_status_of: "file (status_of fs b q) = q"
  by (simp add: status_of_def Let_def split: sum.splits)

lemma status_list_first_wins:
  assumes "readFileSync fs (path_join b p) = Inr body"
  shows "map file (snd (resolve fs (p # rest) (Some b))) = p # rest"
proof -
  from load_loop_win [OF assms, of rest "''''" "[]"] obtain t where
    "load_loop fs b (p # rest) '''' [] =
       (body, [\<lparr>file = p, exists = True, lastModified = Some t\<rparr>])"
    by auto
  then show ?thesis
    by (simp add: snd_resolve file_status_of comp_def del: load_loop.simps)
qed

lemma load_loop_pushes:
  "length sts < length (snd (load_loop fs b (q # rest) c sts))"
proof (cases "readFileSync fs (path_join b q)")
  case (Inl e)
  then have "isl (readFileSync fs (path_join b q))" by simp
  from load_loop_skip [OF this, of rest c sts]
    load_loop_extends [of fs b rest c "sts @ [\<lparr>file = q, exists = False, lastModified = None\<rparr>]"]
  show ?thesis by (auto simp del: load_loop.simps)
next
  case (Inr body)
  from load_loop_win [OF Inr, of rest c sts] show ?thesis
    by (auto simp del: load_loop.simps)
qed

lemma status_list_longer:
  assumes "isl (readFileSync fs (path_join b p))"
  shows "length (p # q # rest) < length (snd (resolve fs (p # q # rest) (Some b)))"
proof -
  have "load_loop fs b (p # q # rest) '''' [] =
          load_loop fs b (q # rest) '''' [\<lparr>file = p, exists = False, lastModified = None\<rparr>]"
    using load_loop_skip [OF assms, of "q # rest" "''''" "[]"] by simp
  moreover have "length [\<lparr>file = p, exists = False, lastModified = None\<rparr>]
        < length (snd (load_loop fs b (q # rest) ''''
                         [\<lparr>file = p, exists = False, lastModified = None\<rparr>]))"
    by (rule load_loop_pushes)
  ultimately show ?thesis
    by (simp add: snd_resolve del: load_loop.simps)
qed

section \<open>Loading\<close>

text \<open>
  C1, at a failing input. The claim is one status entry per configured path, in the
  order of the list. With the folder \<^verbatim>\<open>/w\<close> empty and the list \<^verbatim>\<open>A.md\<close>, \<^verbatim>\<open>B.md\<close>, the
  first loop finds no file and pushes an entry for each of the two paths; the second
  loop starts at index 1 whatever the first loop did and pushes \<^verbatim>\<open>B.md\<close> again. The
  list posted has three entries for two paths. By \<open>status_list_longer\<close> the list is too
  long whenever the first path cannot be read and a second path follows; by
  \<open>status_list_first_wins\<close> it is as claimed when the first path is the winner.
\<close>

theorem status_list_repeats_paths:
  "snd (resolve disk_bare [''A.md'', ''B.md''] (Some ''/w'')) =
     [\<lparr>file = ''A.md'', exists = False, lastModified = None\<rparr>,
      \<lparr>file = ''B.md'', exists = False, lastModified = None\<rparr>,
      \<lparr>file = ''B.md'', exists = False, lastModified = None\<rparr>]"
  by code_simp






text \<open>
  C8. Without a workspace folder, and likewise with an empty list of paths, the result
  is the empty text and the empty status list, posted as an ordinary \<^verbatim>\<open>loadContent\<close>
  message. The result is the same on every disk, and loading returns no disk: no file
  is touched.
\<close>

theorem resolve_without_folder_or_paths:
  "resolve fs syncedFiles None = ('''', [])
   \<and> resolve fs [] (Some fsPath) = ('''', [])
   \<and> loadContent fs syncedFiles None = [PostMessage (LoadContent '''' [])]
   \<and> loadContent fs [] (Some fsPath) = [PostMessage (LoadContent '''' [])]"
  by (simp add: resolve_def loadContent_def status_loop.simps)

text \<open>
  C9. When no configured path exists on disk, the text returned is empty and every
  entry of the status list has \<open>exists = False\<close>.
\<close>

theorem resolve_nothing_exists:
  assumes "\<forall>p\<in>set syncedFiles. \<not> existsSync fs (path_join fsPath p)"
  shows "fst (resolve fs syncedFiles (Some fsPath)) = ''''
         \<and> (\<forall>s\<in>set (snd (resolve fs syncedFiles (Some fsPath))). \<not> exists s)"
proof -
  have "\<forall>p\<in>set (drop 1 syncedFiles). \<not> existsSync fs (path_join fsPath p)"
    using assms by (meson in_set_dropD)
  then have "\<forall>p\<in>set (drop 1 syncedFiles). \<not> exists (status_of fs fsPath p)"
    by (simp add: status_of_absent)
  then show ?thesis
    using assms by (auto simp: resolve_def load_loop_absent status_loop_eq)
qed

text \<open>C9 on the empty folder.\<close>

theorem resolve_nothing_exists_witness:
  "\<not> existsSync disk_bare (path_join ''/w'' ''A.md'')
   \<and> \<not> existsSync disk_bare (path_join ''/w'' ''B.md'')
   \<and> fst (resolve disk_bare [''A.md'', ''B.md''] (Some ''/w'')) = ''''
   \<and> list_all (\<lambda>s. \<not> exists s) (snd (resolve disk_bare [''A.md'', ''B.md''] (Some ''/w'')))"
proof -
  have h: "\<forall>p\<in>set [''A.md'', ''B.md'']. \<not> existsSync disk_bare (path_join ''/w'' p)"
    by (simp add: existsSync_def lookup_def path_join_def disk_bare_def)
  show ?thesis
    using h resolve_nothing_exists [OF h] by (simp add: list_all_iff)
qed

section \<open>Saving\<close>

text \<open>
  C2. With a workspace folder open, saving posts one result per configured path, in
  the order of the list. The result at position \<open>i\<close> is what one turn of the loop yields
  for path \<open>i\<close> on the disk as the turns before it left it, whether they failed or not:
  no failure keeps a later path from being tried. A result is either a success without
  an error, and then the file holds the text when saving ends, or a failure that
  carries a message.
\<close>

theorem save_outcomes:
  assumes "saveToAllFiles fs syncedFiles (Some b) c = (effects, fs')"
  shows "\<exists>results.
           effects = [save_feedback results, PostMessage (SaveResults results)]
           \<and> length results = length syncedFiles
           \<and> map result_file results = syncedFiles
           \<and> (\<forall>i<length syncedFiles.
                 results ! i =
                   fst (save_one (snd (save_loop fs b c (take i syncedFiles) [])) b c
                          (syncedFiles ! i))
                 \<and> (if success (results ! i)
                     then error (results ! i) = None
                          \<and> holds_text fs' (path_join b (syncedFiles ! i)) c
                     else \<exists>msg. error (results ! i) = Some msg))"
proof -
  let ?results = "fst (save_loop fs b c syncedFiles [])"
  have fs': "fs' = snd (save_loop fs b c syncedFiles [])"
    and eff: "effects = [save_feedback ?results, PostMessage (SaveResults ?results)]"
    using assms by (simp_all add: saveToAllFiles_Some)
  have each: "?results ! i =
                fst (save_one (snd (save_loop fs b c (take i syncedFiles) [])) b c (syncedFiles ! i))
              \<and> (if success (?results ! i)
                  then error (?results ! i) = None
                       \<and> holds_text fs' (path_join b (syncedFiles ! i)) c
                  else \<exists>msg. error (?results ! i) = Some msg)"
    if i: "i < length syncedFiles" for i
  proof -
    let ?before = "snd (save_loop fs b c (take i syncedFiles) [])"
    have n: "?results ! i = fst (save_one ?before b c (syncedFiles ! i))"
      using i by (rule save_loop_nth)
    show ?thesis
    proof (cases "success (?results ! i)")
      case True
      then have "error (?results ! i) = None"
        using n save_one_outcome [of ?before b c "syncedFiles ! i"] by auto
      with True n save_loop_success_holds [OF i True] fs' show ?thesis by simp
    next
      case False
      then have "\<exists>msg. error (?results ! i) = Some msg"
        using n save_one_outcome [of ?before b c "syncedFiles ! i"] by auto
      with False n show ?thesis by simp
    qed
  qed
  show ?thesis
    using eff each save_loop_length [of fs b c syncedFiles] save_loop_files [of fs b c syncedFiles]
    by blast
qed

text \<open>
  C2 on \<open>disk_locked\<close>: the second of three paths cannot be created, the first and the
  third are written all the same.
\<close>

theorem save_outcomes_witness:
  "fst (saveToAllFiles disk_locked [''A.md'', ''locked/B.md'', ''C.md''] (Some ''/w'') ''rules'') =
     [ShowErrorMessage
        (''Saved to 2 file(s), failed to save 1 file(s):'' @ [CHR 0x0A]
         @ ''locked/B.md: EACCES: permission denied, open ''
         @ [CHR 0x27] @ ''/w/locked/B.md'' @ [CHR 0x27]),
      PostMessage (SaveResults
        [\<lparr>result_file = ''A.md'', success = True, error = None\<rparr>,
         \<lparr>result_file = ''locked/B.md'', success = False,
          error = Some (''EACCES: permission denied, open ''
                        @ [CHR 0x27] @ ''/w/locked/B.md'' @ [CHR 0x27])\<rparr>,
         \<lparr>result_file = ''C.md'', success = True, error = None\<rparr>])]
   \<and> holds_text
         (snd (saveToAllFiles disk_locked [''A.md'', ''locked/B.md'', ''C.md''] (Some ''/w'') ''rules''))
         (path_join ''/w'' ''A.md'') ''rules''
   \<and> holds_text
         (snd (saveToAllFiles disk_locked [''A.md'', ''locked/B.md'', ''C.md''] (Some ''/w'') ''rules''))
         (path_join ''/w'' ''C.md'') ''rules''"
proof -
  let ?files = "[''A.md'', ''locked/B.md'', ''C.md'']"
  let ?run = "saveToAllFiles disk_locked ?files (Some ''/w'') ''rules''"
  have eff: "fst ?run =
     [ShowErrorMessage
        (''Saved to 2 file(s), failed to save 1 file(s):'' @ [CHR 0x0A]
         @ ''locked/B.md: EACCES: permission denied, open ''
         @ [CHR 0x27] @ ''/w/locked/B.md'' @ [CHR 0x27]),
      PostMessage (SaveResults
        [\<lparr>result_file = ''A.md'', success = True, error = None\<rparr>,
         \<lparr>result_file = ''locked/B.md'', success = False,
          error = Some (''EACCES: permission denied, open ''
                        @ [CHR 0x27] @ ''/w/locked/B.md'' @ [CHR 0x27])\<rparr>,
         \<lparr>result_file = ''C.md'', success = True, error = None\<rparr>])]"
    by code_simp
  have run: "?run = (fst ?run, snd ?run)"
    by simp
  from save_outcomes [OF run] obtain results where
    r: "fst ?run = [save_feedback results, PostMessage (SaveResults results)]" and
    each: "\<forall>i<length ?files.
             results ! i =
               fst (save_one (snd (save_loop disk_locked ''/w'' ''rules'' (take i ?files) []))
                      ''/w'' ''rules'' (?files ! i))
             \<and> (if success (results ! i)
                 then error (results ! i) = None
                      \<and> holds_text (snd ?run) (path_join ''/w'' (?files ! i)) ''rules''
                 else \<exists>msg. error (results ! i) = Some msg)"
    by blast
  from r eff have results: "results =
        [\<lparr>result_file = ''A.md'', success = True, error = None\<rparr>,
         \<lparr>result_file = ''locked/B.md'', success = False,
          error = Some (''EACCES: permission denied, open ''
                        @ [CHR 0x27] @ ''/w/locked/B.md'' @ [CHR 0x27])\<rparr>,
         \<lparr>result_file = ''C.md'', success = True, error = None\<rparr>]"
    by simp
  have "success (results ! 0)" and "success (results ! 2)"
    unfolding results by simp_all
  moreover have "(0::nat) < length ?files" and "(2::nat) < length ?files"
    by simp_all
  ultimately have "holds_text (snd ?run) (path_join ''/w'' (?files ! 0)) ''rules''"
    and "holds_text (snd ?run) (path_join ''/w'' (?files ! 2)) ''rules''"
    using each by metis+
  then show ?thesis
    using eff by simp
qed

text \<open>
  C5. When every result of a save is a success, every configured path exists, is a
  regular file holding exactly the text saved, whatever it held before, and lies below
  directories only: each missing directory on the way has been made.
\<close>

theorem save_all_succeed:
  assumes "saveToAllFiles fs syncedFiles (Some b) c =
             ([feedback, PostMessage (SaveResults results)], fs')"
      and "\<forall>r\<in>set results. success r"
  shows "\<forall>p\<in>set syncedFiles.
           existsSync fs' (path_join b p)
           \<and> holds_text fs' (path_join b p) c
           \<and> (\<forall>d. strict_prefix d (path_join b p) \<longrightarrow> is_directory fs' d)"
proof
  fix p assume "p \<in> set syncedFiles"
  then obtain i where i: "i < length syncedFiles" and p: "p = syncedFiles ! i"
    by (metis in_set_conv_nth)
  have res: "results = fst (save_loop fs b c syncedFiles [])"
    and fs': "fs' = snd (save_loop fs b c syncedFiles [])"
    using assms(1) by (simp_all add: saveToAllFiles_Some)
  have "success (results ! i)"
    using assms(2) i res by (simp add: save_loop_length)
  then have h: "holds_text fs' (path_join b p) c"
    using save_loop_success_holds [OF i] res fs' p by simp
  then obtain t r w where l: "lookup fs' (path_join b p) = Inr (File c t r w)"
    by (auto simp: holds_text_iff)
  have "is_directory fs' d" if "strict_prefix d (path_join b p)" for d
    using lookup_ancestor [OF l that] by (auto simp: is_directory_def)
  with h l show "existsSync fs' (path_join b p) \<and> holds_text fs' (path_join b p) c
           \<and> (\<forall>d. strict_prefix d (path_join b p) \<longrightarrow> is_directory fs' d)"
    by (simp add: existsSync_def)
qed

text \<open>
  C5 on the empty folder: \<^verbatim>\<open>.cursor\<close> does not exist before the save; after it
  \<^verbatim>\<open>.cursor\<close> and \<^verbatim>\<open>.cursor/rules\<close> are directories and both files hold the text.
\<close>

theorem save_all_succeed_witness:
  "fst (saveToAllFiles disk_bare [''AGENTS.md'', ''.cursor/rules/project-rules.mdc'']
          (Some ''/w'') ''rules'') =
     [ShowInformationMessage ''Successfully saved to 2 file(s)'',
      PostMessage (SaveResults
        [\<lparr>result_file = ''AGENTS.md'', success = True, error = None\<rparr>,
         \<lparr>result_file = ''.cursor/rules/project-rules.mdc'', success = True, error = None\<rparr>])]
   \<and> \<not> existsSync disk_bare [''w'', ''.cursor'']
   \<and> holds_text
         (snd (saveToAllFiles disk_bare [''AGENTS.md'', ''.cursor/rules/project-rules.mdc'']
                 (Some ''/w'') ''rules''))
         [''w'', ''AGENTS.md''] ''rules''
   \<and> holds_text
         (snd (saveToAllFiles disk_bare [''AGENTS.md'', ''.cursor/rules/project-rules.mdc'']
                 (Some ''/w'') ''rules''))
         [''w'', ''.cursor'', ''rules'', ''project-rules.mdc''] ''rules''
   \<and> is_directory
         (snd (saveToAllFiles disk_bare [''AGENTS.md'', ''.cursor/rules/project-rules.mdc'']
                 (Some ''/w'') ''rules''))
         [''w'', ''.cursor'']
   \<and> is_directory
         (snd (saveToAllFiles disk_bare [''AGENTS.md'', ''.cursor/rules/project-rules.mdc'']
                 (Some ''/w'') ''rules''))
         [''w'', ''.cursor'', ''rules'']"
proof -
  let ?files = "[''AGENTS.md'', ''.cursor/rules/project-rules.mdc'']"
  let ?results = "[\<lparr>result_file = ''AGENTS.md'', success = True, error = None\<rparr>,
         \<lparr>result_file = ''.cursor/rules/project-rules.mdc'', success = True, error = None\<rparr>]"
  let ?run = "saveToAllFiles disk_bare ?files (Some ''/w'') ''rules''"
  have eff: "fst ?run =
     [ShowInformationMessage ''Successfully saved to 2 file(s)'',
      PostMessage (SaveResults ?results)]"
    by code_simp
  then have run: "?run =
     ([ShowInformationMessage ''Successfully saved to 2 file(s)'',
       PostMessage (SaveResults ?results)], snd ?run)"
    by (metis prod.collapse)
  have ok: "\<forall>r\<in>set ?results. success r"
    by simp
  have missing: "\<not> existsSync disk_bare [''w'', ''.cursor'']"
    by code_simp
  have j1: "path_join ''/w'' ''AGENTS.md'' = [''w'', ''AGENTS.md'']"
    and j2: "path_join ''/w'' ''.cursor/rules/project-rules.mdc'' =
               [''w'', ''.cursor'', ''rules'', ''project-rules.mdc'']"
    by code_simp+
  have p1: "strict_prefix [''w'', ''.cursor''] [''w'', ''.cursor'', ''rules'', ''project-rules.mdc'']"
    and p2: "strict_prefix [''w'', ''.cursor'', ''rules'']
               [''w'', ''.cursor'', ''rules'', ''project-rules.mdc'']"
    by simp_all
  from save_all_succeed [OF run ok]
  have "holds_text (snd ?run) (path_join ''/w'' ''AGENTS.md'') ''rules''"
    and "holds_text (snd ?run) (path_join ''/w'' ''.cursor/rules/project-rules.mdc'') ''rules''"
    and "\<forall>d. strict_prefix d (path_join ''/w'' ''.cursor/rules/project-rules.mdc'')
           \<longrightarrow> is_directory (snd ?run) d"
    by simp_all
  with p1 p2 show ?thesis
    unfolding j1 j2 using eff missing by blast
qed

text \<open>
  C7. Without a workspace folder, saving shows the one error message
  \<^verbatim>\<open>No workspace folder found\<close> and returns: the disk is unchanged, no directory is made,
  no file is written and no per-path result is posted.
\<close>

theorem save_without_folder:
  "saveToAllFiles fs syncedFiles None content =
     ([ShowErrorMessage ''No workspace folder found''], fs)"
  by (simp add: saveToAllFiles_def)

text \<open>
  C10. Saving an empty list of paths, with a workspace folder open, leaves the disk as
  it was, posts an empty list of results and reports success for zero files.
\<close>

theorem save_empty_list:
  "saveToAllFiles fs [] (Some fsPath) content =
     ([ShowInformationMessage ''Successfully saved to 0 file(s)'',
       PostMessage (SaveResults [])], fs)"
  by (simp add: saveToAllFiles_def save_feedback_def show_nat_0)

section \<open>Saving, then loading\<close>




end
